theory Spec2Isabelle
  imports Complex_Main "HOL-Library.Sublist"
begin

section \<open>JavaScript values\<close>

text \<open>
  The viewer is TypeScript. Its numbers (timestamps, playback time, distances) are modelled
  as \<^typ>\<open>real\<close>: finite doubles on which the subtractions and comparisons of the code
  are exact. \<^verbatim>\<open>Infinity\<close>, the start value of \<^verbatim>\<open>closestDist\<close>, is \<open>None\<close> of
  \<^typ>\<open>real option\<close>. An optional field is an \<open>option\<close>; \<open>None\<close> is \<^verbatim>\<open>undefined\<close>.
  Strings are \<^typ>\<open>string\<close>.

  \<^verbatim>\<open>a || b\<close> takes \<open>b\<close> when \<open>a\<close> is falsy: an absent or empty string, an absent or
  zero number.
\<close>

definition truthy_str :: "string option \<Rightarrow> bool" where
  "truthy_str s = (case s of None \<Rightarrow> False | Some x \<Rightarrow> x \<noteq> [])"

definition truthy_num :: "real option \<Rightarrow> bool" where
  "truthy_num n = (case n of None \<Rightarrow> False | Some x \<Rightarrow> x \<noteq> 0)"

text \<open>\<^verbatim>\<open>a || b\<close> on two optional strings, and \<^verbatim>\<open>a || "literal"\<close>.\<close>

definition or_opt :: "string option \<Rightarrow> string option \<Rightarrow> string option" where
  "or_opt a b = (if truthy_str a then a else b)"

definition or_str :: "string option \<Rightarrow> string \<Rightarrow> string" where
  "or_str a d = (case a of None \<Rightarrow> d | Some x \<Rightarrow> if x = [] then d else x)"

text \<open>\<^verbatim>\<open>dist < closestDist\<close> and \<^verbatim>\<open>closestDist >= 1500\<close> with \<open>None\<close> as infinity.\<close>

definition lt_inf :: "real \<Rightarrow> real option \<Rightarrow> bool" where
  "lt_inf d c = (case c of None \<Rightarrow> True | Some x \<Rightarrow> d < x)"

definition ge_inf :: "real option \<Rightarrow> real \<Rightarrow> bool" where
  "ge_inf c b = (case c of None \<Rightarrow> True | Some x \<Rightarrow> b \<le> x)"

text \<open>\<^verbatim>\<open>String.prototype.lastIndexOf\<close> for one character; \<open>None\<close> is \<open>-1\<close>.\<close>

fun lastIndexOf :: "char \<Rightarrow> string \<Rightarrow> nat option" where
  "lastIndexOf c [] = None"
| "lastIndexOf c (x # xs) =
     (case lastIndexOf c xs of
        Some i \<Rightarrow> Some (Suc i)
      | None \<Rightarrow> if x = c then Some 0 else None)"

text \<open>
  \<^verbatim>\<open>toLowerCase\<close> on the ASCII letters. No key of the extension table below has a
  character outside \<open>a-z\<close>, \<open>0-9\<close> and the dot, and the pathname of a parsed URL is
  percent-encoded ASCII.
\<close>

definition lower_char :: "char \<Rightarrow> char" where
  "lower_char c =
     (let n = (of_char c :: nat) in if 65 \<le> n \<and> n \<le> 90 then char_of (n + 32) else c)"

definition toLowerCase :: "string \<Rightarrow> string" where
  "toLowerCase s = map lower_char s"

section \<open>Network entries and the resource classifier\<close>

text \<open>
  \<^verbatim>\<open>NetworkLogEntry\<close>, with the fields that the classifier, the loader, the timeline
  query and the marker projector read; headers, bodies, timings and the initiator are only
  displayed and are left out. Field names carry a prefix, since two records cannot share
  one.
\<close>

record Request =
  req_method :: "string option"
  req_url :: "string option"

record NetworkLogEntry =
  net_request :: "Request option"
  net_method :: "string option"
  net_url :: "string option"
  net_resourceType :: "string option"
  net_wallTime :: "real option"
  net_timestamp :: "real option"
  net_error :: "string option"
  net_relativeMs :: real

definition FILTER_TYPES :: "string list" where
  "FILTER_TYPES =
     [''all'', ''fetch'', ''js'', ''css'', ''img'', ''doc'', ''font'', ''media'', ''ws'',
      ''other'']"

definition TYPE_MAP :: "(string \<times> string list) list" where
  "TYPE_MAP =
     [(''fetch'', [''XHR'', ''Fetch'']),
      (''js'', [''Script'']),
      (''css'', [''Stylesheet'']),
      (''img'', [''Image'']),
      (''doc'', [''Document'']),
      (''font'', [''Font'']),
      (''media'', [''Media'']),
      (''ws'', [''WebSocket''])]"

definition STATIC_EXT_MAP :: "(string \<times> string) list" where
  "STATIC_EXT_MAP =
     [(''.js'', ''js''), (''.mjs'', ''js''), (''.cjs'', ''js''), (''.map'', ''js''),
      (''.css'', ''css''),
      (''.png'', ''img''), (''.jpg'', ''img''), (''.jpeg'', ''img''), (''.gif'', ''img''),
      (''.svg'', ''img''), (''.webp'', ''img''), (''.ico'', ''img''), (''.avif'', ''img''),
      (''.woff'', ''font''), (''.woff2'', ''font''), (''.ttf'', ''font''),
      (''.eot'', ''font''), (''.otf'', ''font''),
      (''.mp4'', ''media''), (''.webm'', ''media''), (''.mp3'', ''media''),
      (''.ogg'', ''media''), (''.wav'', ''media''),
      (''.html'', ''doc''), (''.htm'', ''doc'')]"

text \<open>\<^verbatim>\<open>entry.request?.url || entry.url || ""\<close>\<close>

definition entry_url :: "NetworkLogEntry \<Rightarrow> string" where
  "entry_url entry =
     or_str (or_opt (case net_request entry of None \<Rightarrow> None | Some r \<Rightarrow> req_url r)
                    (net_url entry)) ''''"

text \<open>
  \<^verbatim>\<open>getFilterType\<close>. The platform's URL parser is not code of the viewer: the
  parameter \<open>pathname_of\<close> stands for \<^verbatim>\<open>new URL(url, "http://x").pathname\<close>, with
  \<open>None\<close> where the constructor throws (the \<^verbatim>\<open>catch {}\<close> then falls through to
  \<^verbatim>\<open>return "fetch"\<close>). The loop over \<^verbatim>\<open>Object.entries(TYPE_MAP)\<close> returns the key of
  the first row whose list includes the declared type.
\<close>

definition getFilterType :: "(string \<Rightarrow> string option) \<Rightarrow> NetworkLogEntry \<Rightarrow> string" where
  "getFilterType pathname_of entry =
     (let resourceType = or_str (net_resourceType entry) '''' in
      if resourceType = ''XHR'' \<or> resourceType = ''Fetch'' then
        (case pathname_of (entry_url entry) of
           None \<Rightarrow> ''fetch''
         | Some pathname \<Rightarrow>
             (case lastIndexOf CHR ''.'' pathname of
                None \<Rightarrow> ''fetch''
              | Some dot \<Rightarrow>
                  (case map_of STATIC_EXT_MAP (toLowerCase (drop dot pathname)) of
                     None \<Rightarrow> ''fetch''
                   | Some mapped \<Rightarrow> mapped)))
      else
        (case find (\<lambda>row. resourceType \<in> set (snd row)) TYPE_MAP of
           Some row \<Rightarrow> fst row
         | None \<Rightarrow> ''other''))"

section \<open>The timeline query\<close>

text \<open>
  \<^verbatim>\<open>NetworkViewer\<close> and \<^verbatim>\<open>ConsoleViewer\<close> compute \<^verbatim>\<open>closestIndex\<close> and
  \<^verbatim>\<open>visibleEntries\<close> in a \<^verbatim>\<open>useMemo\<close> callback whose body is the same in both, up to
  the name of the category field (\<^verbatim>\<open>filterType\<close>, \<^verbatim>\<open>filterLevel\<close>). The body is
  modelled once, over the accessors of a processed entry: its \<^verbatim>\<open>entry.relativeMs\<close>, its
  \<^verbatim>\<open>index\<close> and its category.

  The callback of \<^verbatim>\<open>processedEntries.filter\<close> updates two local variables while it
  filters; they are the state threaded through \<open>filter_inTime\<close>.
\<close>

record scan_state =
  closestIdx :: int
  closestDist :: "real option"

fun filter_inTime ::
  "('p \<Rightarrow> real) \<Rightarrow> ('p \<Rightarrow> nat) \<Rightarrow> real \<Rightarrow> 'p list \<Rightarrow> scan_state \<Rightarrow> 'p list \<times> scan_state"
where
  "filter_inTime rel idx currentTimeMs [] s = ([], s)"
| "filter_inTime rel idx currentTimeMs (pe # pes) s =
     (let inTime = rel pe \<le> currentTimeMs in
      if \<not> inTime then filter_inTime rel idx currentTimeMs pes s
      else
        (let dist = \<bar>rel pe - currentTimeMs\<bar>;
             s' = (if lt_inf dist (closestDist s)
                   then \<lparr>closestIdx = int (idx pe), closestDist = Some dist\<rparr>
                   else s);
             r = filter_inTime rel idx currentTimeMs pes s'
         in (pe # fst r, snd r)))"

text \<open>
  The result of the callback. The network viewer also returns \<^verbatim>\<open>visibleCount\<close>, the
  length of \<^verbatim>\<open>visibleEntries\<close>.
\<close>

record 'p view =
  closestIndex :: int
  visibleEntries :: "'p list"

definition timeline_view ::
  "('p \<Rightarrow> real) \<Rightarrow> ('p \<Rightarrow> nat) \<Rightarrow> ('p \<Rightarrow> string) \<Rightarrow> 'p list \<Rightarrow> real \<Rightarrow> string \<Rightarrow> 'p view"
where
  "timeline_view rel idx cat processedEntries currentTimeMs activeFilter =
     (let r = filter_inTime rel idx currentTimeMs processedEntries
                \<lparr>closestIdx = - 1, closestDist = None\<rparr>;
          visible = fst r;
          closestIdx' = (if ge_inf (closestDist (snd r)) 1500 then - 1 else closestIdx (snd r));
          filtered = (if activeFilter = ''all'' then visible
                      else filter (\<lambda>pe. cat pe = activeFilter) visible)
      in \<lparr>closestIndex = closestIdx', visibleEntries = filtered\<rparr>)"

record NetProcessed =
  n_entry :: NetworkLogEntry
  n_index :: nat
  n_filterType :: string

definition net_processedEntries ::
  "(string \<Rightarrow> string option) \<Rightarrow> NetworkLogEntry list \<Rightarrow> NetProcessed list" where
  "net_processedEntries pathname_of entries =
     map (\<lambda>(i, e). \<lparr>n_entry = e, n_index = i, n_filterType = getFilterType pathname_of e\<rparr>)
       (enumerate 0 entries)"

definition NetworkViewer ::
  "(string \<Rightarrow> string option) \<Rightarrow> NetworkLogEntry list \<Rightarrow> real \<Rightarrow> string \<Rightarrow> NetProcessed view"
where
  "NetworkViewer pathname_of entries currentTimeMs activeTypeFilter =
     timeline_view (\<lambda>pe. net_relativeMs (n_entry pe)) n_index n_filterType
       (net_processedEntries pathname_of entries) currentTimeMs activeTypeFilter"

section \<open>Captured runtime values and their rendering\<close>

text \<open>
  \<^verbatim>\<open>RemoteObjectValue.value\<close> has type \<^verbatim>\<open>unknown\<close>. The renderer only turns it into
  text, so the model keeps the primitive values whose text is plain: \<^verbatim>\<open>undefined\<close>
  (also an absent field), \<^verbatim>\<open>null\<close>, booleans, integers and strings. Fractional numbers
  and their formatting are left out.
\<close>

datatype js_value = JUndefined | JNull | JBool bool | JNum int | JStr string

text \<open>The \<^verbatim>\<open>entries\<close> of a preview are never read by the renderer and are left out.\<close>

datatype ObjectPreviewValue =
  ObjectPreviewValue (pv_type: string) (pv_subtype: "string option")
    (pv_description: "string option") (pv_overflow: "bool option")
    (pv_properties: "PropertyPreviewValue list option")
and PropertyPreviewValue =
  PropertyPreviewValue (pp_name: string) (pp_type: string) (pp_value: "string option")
    (pp_subtype: "string option") (pp_valuePreview: "ObjectPreviewValue option")

record RemoteObjectValue =
  ro_type :: string
  ro_subtype :: "string option"
  ro_value :: js_value
  ro_description :: "string option"
  ro_className :: "string option"
  ro_preview :: "ObjectPreviewValue option"

text \<open>
  Decimal text of an integer, as \<^verbatim>\<open>String(n)\<close> gives it for an integer below
  \<open>10\<^sup>2\<^sup>1\<close> in size; from there on JavaScript prints an exponent, which is not modelled.
\<close>

definition digit_char :: "nat \<Rightarrow> char" where
  "digit_char d = ''0123456789'' ! d"

fun show_nat :: "nat \<Rightarrow> string" where
  "show_nat n =
     (if n < 10 then [digit_char n] else show_nat (n div 10) @ [digit_char (n mod 10)])"

declare show_nat.simps [simp del]

definition show_int :: "int \<Rightarrow> string" where
  "show_int i = (if i < 0 then CHR ''-'' # show_nat (nat (- i)) else show_nat (nat i))"

text \<open>\<^verbatim>\<open>String(v)\<close>, which a template literal applies to an interpolated value.\<close>

fun js_String :: "js_value \<Rightarrow> string" where
  "js_String JUndefined = ''undefined''"
| "js_String JNull = ''null''"
| "js_String (JBool b) = (if b then ''true'' else ''false'')"
| "js_String (JNum n) = show_int n"
| "js_String (JStr s) = s"

text \<open>An interpolated optional string: \<^verbatim>\<open>undefined\<close> prints as its name.\<close>

definition tmpl :: "string option \<Rightarrow> string" where
  "tmpl v = (case v of None \<Rightarrow> ''undefined'' | Some x \<Rightarrow> x)"

text \<open>\<^verbatim>\<open>str.replace(/c/g, r)\<close> for one character, and the four passes of \<^verbatim>\<open>escapeHtml\<close>.\<close>

definition replaceAll :: "char \<Rightarrow> string \<Rightarrow> string \<Rightarrow> string" where
  "replaceAll c r str = concat (map (\<lambda>x. if x = c then r else [x]) str)"

definition escapeHtml :: "string \<Rightarrow> string" where
  "escapeHtml str =
     replaceAll (CHR 0x22) ''&quot;''
       (replaceAll CHR ''>'' ''&gt;''
         (replaceAll CHR ''<'' ''&lt;'' (replaceAll CHR ''&'' ''&amp;'' str)))"

text \<open>\<^verbatim>\<open>Array.prototype.join\<close>\<close>

fun join :: "string \<Rightarrow> string list \<Rightarrow> string" where
  "join sep [] = []"
| "join sep [x] = x"
| "join sep (x # y # ys) = x @ sep @ join sep (y # ys)"

text \<open>The markup every literal is wrapped in: a \<^verbatim>\<open>span\<close> with a class.\<close>

definition span :: "string \<Rightarrow> string \<Rightarrow> string" where
  \<open>span cls body = ''<span class="'' @ cls @ ''">'' @ body @ ''</span>''\<close>

text \<open>
  The first branch of \<^verbatim>\<open>renderPreview\<close>: taken when the property list is absent or
  empty, before \<^verbatim>\<open>overflow\<close> is looked at.
\<close>

definition emptyPreview :: "string option \<Rightarrow> string option \<Rightarrow> string" where
  "emptyPreview subtype className =
     (if subtype = Some ''array'' then ''[]''
      else if truthy_str className then tmpl className @ '' {}'' else ''{}'')"

fun renderPreview :: "ObjectPreviewValue \<Rightarrow> string option \<Rightarrow> string"
and renderPreviewValue :: "PropertyPreviewValue \<Rightarrow> string" where
  "renderPreview (ObjectPreviewValue ty subtype description overflow properties) className =
     (case properties of
        None \<Rightarrow> emptyPreview subtype className
      | Some ps \<Rightarrow>
          if ps = [] then emptyPreview subtype className
          else
            (let isArray = (subtype = Some ''array'');
                 open = (if isArray then ''[''
                         else if truthy_str className \<and> className \<noteq> Some ''Object''
                              then tmpl className @ '' {''
                              else ''{'');
                 close = (if isArray then '']'' else ''}'');
                 props = join '', ''
                   (map (\<lambda>p. let val = renderPreviewValue p in
                              if isArray then val
                              else span ''text-gh-purple'' (escapeHtml (pp_name p)) @ '': '' @ val)
                      ps);
                 overflow' = (if overflow = Some True then '', ...'' else '''')
             in open @ props @ overflow' @ close))"
| "renderPreviewValue (PropertyPreviewValue name ty val subtype valuePreview) =
     (case valuePreview of
        Some vp \<Rightarrow> renderPreview vp (pv_description vp)
      | None \<Rightarrow>
          (if ty = ''string'' then
             span ''text-gh-blue-str'' (CHR 0x22 # escapeHtml (or_str val '''') @ [CHR 0x22])
           else if ty = ''number'' \<or> ty = ''bigint'' then span ''text-gh-blue-num'' (tmpl val)
           else if ty = ''boolean'' then span ''text-gh-blue-num'' (tmpl val)
           else if ty = ''undefined'' then span ''text-gh-secondary'' ''undefined''
           else if ty = ''function'' then span ''text-gh-purple italic'' [CHR 0xC6, CHR 0x92]
           else if ty = ''object'' then
             (if subtype = Some ''null'' then span ''text-gh-secondary'' ''null''
              else span ''text-gh-secondary'' (escapeHtml (or_str val ''Object'')))
           else escapeHtml (or_str val '''')))"

definition renderObjectPreview :: "RemoteObjectValue \<Rightarrow> string" where
  "renderObjectPreview obj =
     (if ro_subtype obj = Some ''null'' then span ''text-gh-secondary'' ''null''
      else if ro_subtype obj = Some ''error'' then
        span ''text-gh-error whitespace-pre-wrap'' (escapeHtml (or_str (ro_description obj) ''Error''))
      else if ro_subtype obj = Some ''regexp'' then
        span ''text-gh-orange'' (escapeHtml (or_str (ro_description obj) ''''))
      else if ro_subtype obj = Some ''date'' then
        span ''text-gh-blue-str'' (escapeHtml (or_str (ro_description obj) ''''))
      else
        (case ro_preview obj of
           Some preview \<Rightarrow> renderPreview preview (ro_className obj)
         | None \<Rightarrow>
             span ''text-gh-secondary''
               (escapeHtml (or_str (or_opt (ro_description obj) (ro_className obj)) ''Object''))))"

text \<open>
  \<^verbatim>\<open>obj.description || obj.value\<close> inside a template literal: the description when it
  is a non-empty string, the text of the value otherwise.
\<close>

definition description_or_value :: "RemoteObjectValue \<Rightarrow> string" where
  "description_or_value obj =
     (if truthy_str (ro_description obj) then tmpl (ro_description obj)
      else js_String (ro_value obj))"

text \<open>\<^verbatim>\<open>renderRemoteObject\<close>; \<open>None\<close> is a \<^verbatim>\<open>null\<close> or \<^verbatim>\<open>undefined\<close> argument.\<close>

definition renderRemoteObject :: "RemoteObjectValue option \<Rightarrow> string" where
  "renderRemoteObject arg =
     (case arg of
        None \<Rightarrow> ''undefined''
      | Some obj \<Rightarrow>
          (let ty = ro_type obj in
           if ty = ''undefined'' then span ''text-gh-secondary'' ''undefined''
           else if ty = ''boolean'' then span ''text-gh-blue-num'' (js_String (ro_value obj))
           else if ty = ''number'' then span ''text-gh-blue-num'' (description_or_value obj)
           else if ty = ''bigint'' then span ''text-gh-blue-num'' (description_or_value obj @ ''n'')
           else if ty = ''string'' then
             span ''text-gh-blue-str''
               (escapeHtml
                 (if ro_value obj \<noteq> JUndefined \<and> ro_value obj \<noteq> JNull
                  then js_String (ro_value obj) else or_str (ro_description obj) ''''))
           else if ty = ''symbol'' then
             span ''text-gh-purple'' (escapeHtml (or_str (ro_description obj) ''Symbol()''))
           else if ty = ''function'' then
             span ''text-gh-purple italic''
               ([CHR 0xC6, CHR 0x92] @ '' '' @ escapeHtml (or_str (ro_description obj) ''anonymous''))
           else if ty = ''object'' then renderObjectPreview obj
           else escapeHtml (description_or_value obj)))"

text \<open>
  The string goes to the page through \<^verbatim>\<open>dangerouslySetInnerHTML\<close>. What a reader sees
  of it is the text outside the tags; \<open>textContent\<close> drops every \<^verbatim>\<open><...>\<close>. It does
  not decode the entities that \<^verbatim>\<open>escapeHtml\<close> writes, so it is the displayed text only for
  markup without entities.
\<close>

fun dropTags :: "bool \<Rightarrow> string \<Rightarrow> string" where
  "dropTags inTag [] = []"
| "dropTags inTag (c # cs) =
     (if inTag then dropTags (c \<noteq> CHR ''>'') cs
      else if c = CHR ''<'' then dropTags True cs
      else c # dropTags False cs)"

definition textContent :: "string \<Rightarrow> string" where
  "textContent html = dropTags False html"

section \<open>Console entries\<close>

record ConsoleLogEntry =
  con_source :: "string option"
  con_level :: "string option"
  con_timestamp :: real
  con_message :: "string option"
  con_args :: "RemoteObjectValue list option"
  con_relativeMs :: real

definition FILTER_LEVELS :: "string list" where
  "FILTER_LEVELS =
     [''all'', ''log'', ''warn'', ''error'', ''info'', ''debug'', ''exception'', ''browser'']"

definition isNewFormat :: "ConsoleLogEntry \<Rightarrow> bool" where
  "isNewFormat entry = (con_source entry \<noteq> None)"

definition getLevel :: "ConsoleLogEntry \<Rightarrow> string" where
  "getLevel entry =
     (if isNewFormat entry then
        (if con_source entry = Some ''exception'' then ''error''
         else if con_source entry = Some ''browser'' then or_str (con_level entry) ''info''
         else or_str (con_level entry) ''log'')
      else or_str (con_level entry) ''log'')"

definition getFilterLevel :: "ConsoleLogEntry \<Rightarrow> string" where
  "getFilterLevel entry =
     (if isNewFormat entry \<and> con_source entry = Some ''exception'' then ''exception''
      else if isNewFormat entry \<and> con_source entry = Some ''browser'' then ''browser''
      else getLevel entry)"

record ConProcessed =
  c_entry :: ConsoleLogEntry
  c_index :: nat
  c_level :: string
  c_filterLevel :: string

definition con_processedEntries :: "ConsoleLogEntry list \<Rightarrow> ConProcessed list" where
  "con_processedEntries entries =
     map (\<lambda>(i, e). \<lparr>c_entry = e, c_index = i, c_level = getLevel e,
                     c_filterLevel = getFilterLevel e\<rparr>)
       (enumerate 0 entries)"

definition ConsoleViewer :: "ConsoleLogEntry list \<Rightarrow> real \<Rightarrow> string \<Rightarrow> ConProcessed view" where
  "ConsoleViewer entries currentTimeMs activeFilter =
     timeline_view (\<lambda>pe. con_relativeMs (c_entry pe)) c_index c_filterLevel
       (con_processedEntries entries) currentTimeMs activeFilter"

section \<open>Loading a recording\<close>

text \<open>
  The \<^verbatim>\<open>then\<close> callback of \<^verbatim>\<open>App\<close>. The payload \<^verbatim>\<open>data.networkRequests\<close> is absent,
  an array, or an object whose entries are under \<^verbatim>\<open>log.entries\<close> (\<open>NdObject None\<close>
  when that path is missing). \<^verbatim>\<open>Array.prototype.sort\<close> with a difference of numbers as
  comparator is a stable sort by that number: \<^const>\<open>sort_key\<close>.
\<close>

record RecordingMetadata =
  meta_url :: "string option"
  meta_duration :: "real option"
  meta_startTime :: "real option"
  meta_timestamp :: "string option"

datatype NetworkData =
  NdAbsent | NdArray "NetworkLogEntry list" | NdObject "NetworkLogEntry list option"

record RecordingData =
  data_metadata :: RecordingMetadata
  data_consoleLogs :: "ConsoleLogEntry list option"
  data_networkRequests :: NetworkData

text \<open>
  \<^verbatim>\<open>meta.startTime || new Date(meta.timestamp || "").getTime()\<close>; the parameter
  \<open>date_getTime\<close> stands for the platform's date parser. It returns a number: the
  \<^verbatim>\<open>NaN\<close> of an unparseable date has no counterpart in the model.
\<close>

definition startTimeOf :: "(string \<Rightarrow> real) \<Rightarrow> RecordingMetadata \<Rightarrow> real" where
  "startTimeOf date_getTime meta =
     (if truthy_num (meta_startTime meta) then (case meta_startTime meta of Some x \<Rightarrow> x | None \<Rightarrow> 0)
      else date_getTime (or_str (meta_timestamp meta) ''''))"

definition normalizeConsole :: "real \<Rightarrow> ConsoleLogEntry list option \<Rightarrow> ConsoleLogEntry list" where
  "normalizeConsole st logs =
     sort_key con_timestamp
       (map (\<lambda>e. e\<lparr>con_relativeMs := con_timestamp e - st\<rparr>)
          (case logs of None \<Rightarrow> [] | Some es \<Rightarrow> es))"

definition rawNet :: "NetworkData \<Rightarrow> NetworkLogEntry list" where
  "rawNet nd =
     (case nd of
        NdAbsent \<Rightarrow> []
      | NdObject None \<Rightarrow> []
      | NdObject (Some entries) \<Rightarrow> entries
      | NdArray entries \<Rightarrow> entries)"

text \<open>
  The \<^verbatim>\<open>map\<close> callback of the network entries: \<^verbatim>\<open>let relativeMs = 0\<close>, then the
  wall-clock field if it is truthy, else the monotonic field if it is truthy. Both are in
  seconds.
\<close>

definition relativeMsOf :: "real \<Rightarrow> NetworkLogEntry \<Rightarrow> real" where
  "relativeMsOf st e =
     (if truthy_num (net_wallTime e) then
        (case net_wallTime e of Some w \<Rightarrow> w * 1000 - st | None \<Rightarrow> 0)
      else if truthy_num (net_timestamp e) then
        (case net_timestamp e of Some ts \<Rightarrow> ts * 1000 - st | None \<Rightarrow> 0)
      else 0)"

definition normalizeNetwork :: "real \<Rightarrow> NetworkData \<Rightarrow> NetworkLogEntry list" where
  "normalizeNetwork st nd =
     sort_key net_relativeMs (map (\<lambda>e. e\<lparr>net_relativeMs := relativeMsOf st e\<rparr>) (rawNet nd))"

record AppState =
  startTime :: real
  consoleLogs :: "ConsoleLogEntry list"
  networkRequests :: "NetworkLogEntry list"

definition loadRecording :: "(string \<Rightarrow> real) \<Rightarrow> RecordingData \<Rightarrow> AppState" where
  "loadRecording date_getTime d =
     (let st = startTimeOf date_getTime (data_metadata d) in
      \<lparr>startTime = st,
       consoleLogs = normalizeConsole st (data_consoleLogs d),
       networkRequests = normalizeNetwork st (data_networkRequests d)\<rparr>)"

section \<open>Timeline markers\<close>

record TimelineMarker =
  timeMs :: real
  color :: string
  label :: string

text \<open>\<^verbatim>\<open>entry.message || entry.args?.[0]?.description || ""\<close>\<close>

definition marker_message :: "ConsoleLogEntry \<Rightarrow> string" where
  "marker_message entry =
     or_str
       (or_opt (con_message entry)
          (case con_args entry of
             None \<Rightarrow> None
           | Some [] \<Rightarrow> None
           | Some (a # as) \<Rightarrow> ro_description a))
       ''''"

text \<open>The two \<^verbatim>\<open>for\<close> loops of the \<^verbatim>\<open>markers\<close> callback; \<^verbatim>\<open>m.push\<close> appends.\<close>

fun push_console_markers ::
  "ConsoleLogEntry list \<Rightarrow> TimelineMarker list \<Rightarrow> TimelineMarker list" where
  "push_console_markers [] m = m"
| "push_console_markers (entry # rest) m =
     (let level =
            (if con_source entry = Some ''exception'' then ''error''
             else if con_source entry = Some ''browser'' then or_str (con_level entry) ''info''
             else or_str (con_level entry) ''log'')
      in if level = ''error'' then
           push_console_markers rest
             (m @ [\<lparr>timeMs = con_relativeMs entry, color = ''#f85149'',
                     label = ''Error: '' @ take 80 (marker_message entry)\<rparr>])
         else push_console_markers rest m)"

fun push_network_markers ::
  "NetworkLogEntry list \<Rightarrow> TimelineMarker list \<Rightarrow> TimelineMarker list" where
  "push_network_markers [] m = m"
| "push_network_markers (entry # rest) m =
     (let url = entry_url entry;
          method =
            or_str (or_opt (case net_request entry of None \<Rightarrow> None | Some r \<Rightarrow> req_method r)
                           (net_method entry)) ''GET''
      in push_network_markers rest
           (m @ [\<lparr>timeMs = net_relativeMs entry, color = ''#58a6ff'',
                   label = take 80 (method @ '' '' @ url)\<rparr>]))"

definition markers :: "ConsoleLogEntry list \<Rightarrow> NetworkLogEntry list \<Rightarrow> TimelineMarker list" where
  "markers cs ns = push_network_markers ns (push_console_markers cs [])"

section \<open>Example entries\<close>

text \<open>Entries with nothing but a time, for the concrete instances below.\<close>

definition net_at :: "real \<Rightarrow> NetworkLogEntry" where
  "net_at r =
     \<lparr>net_request = None, net_method = None, net_url = None, net_resourceType = None,
      net_wallTime = None, net_timestamp = None, net_error = None, net_relativeMs = r\<rparr>"

definition con_at :: "real \<Rightarrow> ConsoleLogEntry" where
  "con_at r =
     \<lparr>con_source = None, con_level = None, con_timestamp = r, con_message = None,
      con_args = None, con_relativeMs = r\<rparr>"

text \<open>
  The answers of the platform's URL parser on the two inputs used below: the pathname of
  \<^verbatim>\<open>https://cdn.example/img/a.png?x=1\<close> is \<^verbatim>\<open>/img/a.png\<close>, and \<^verbatim>\<open>http://\<close> (no host) is
  rejected. No other input is used with it.
\<close>

definition pathname_example :: "string \<Rightarrow> string option" where
  "pathname_example u =
     (if u = ''https://cdn.example/img/a.png?x=1'' then Some ''/img/a.png'' else None)"

text \<open>An \<^verbatim>\<open>XHR\<close> request for a URL.\<close>

definition xhr_of :: "string \<Rightarrow> NetworkLogEntry" where
  "xhr_of u =
     (net_at 0)\<lparr>net_request := Some \<lparr>req_method = Some ''GET'', req_url = Some u\<rparr>,
                net_resourceType := Some ''XHR''\<rparr>"

text \<open>
  The values of the rendering examples: \<^verbatim>\<open>{type:"number", value:42}\<close>, and an object
  whose preview is an array of the numbers 1 and 2, with a given overflow flag.
\<close>

definition number_42 :: RemoteObjectValue where
  "number_42 =
     \<lparr>ro_type = ''number'', ro_subtype = None, ro_value = JNum 42, ro_description = None,
      ro_className = None, ro_preview = None\<rparr>"

definition array_preview :: "bool option \<Rightarrow> PropertyPreviewValue list \<Rightarrow> ObjectPreviewValue" where
  "array_preview ov ps = ObjectPreviewValue ''object'' (Some ''array'') None ov (Some ps)"

definition array_1_2 :: "bool option \<Rightarrow> RemoteObjectValue" where
  "array_1_2 ov =
     \<lparr>ro_type = ''object'', ro_subtype = None, ro_value = JUndefined, ro_description = None,
      ro_className = None,
      ro_preview = Some (array_preview ov
        [PropertyPreviewValue ''0'' ''number'' (Some ''1'') None None,
         PropertyPreviewValue ''1'' ''number'' (Some ''2'') None None])\<rparr>"

text \<open>
  A message from the browser with no level of its own, and an exception with a message of
  100 characters.
\<close>

definition browser_info :: ConsoleLogEntry where
  "browser_info = (con_at 0)\<lparr>con_source := Some ''browser'', con_message := Some ''net::ERR''\<rparr>"

definition exception_long :: ConsoleLogEntry where
  "exception_long =
     (con_at 0)\<lparr>con_source := Some ''exception'', con_message := Some (replicate 100 CHR ''a'')\<rparr>"

text \<open>Metadata with every field absent.\<close>

definition meta_none :: RecordingMetadata where
  "meta_none = \<lparr>meta_url = None, meta_duration = None, meta_startTime = None, meta_timestamp = None\<rparr>"

section \<open>Properties of the timeline query\<close>

lemma filter_inTime_fst:
  "fst (filter_inTime rel idx t pes s) = filter (\<lambda>pe. rel pe \<le> t) pes"
  by (induction pes arbitrary: s) (simp_all add: Let_def)

lemma scan_keep:
  "(\<And>pe. pe \<in> set pes \<Longrightarrow> rel pe \<le> t \<Longrightarrow> \<not> lt_inf \<bar>rel pe - t\<bar> (closestDist s))
   \<Longrightarrow> snd (filter_inTime rel idx t pes s) = s"
  by (induction pes arbitrary: s) (simp_all add: Let_def)

lemma scan_improve:
  "\<exists>pe\<in>set pes. rel pe \<le> t \<and> lt_inf \<bar>rel pe - t\<bar> (closestDist s) \<Longrightarrow>
   \<exists>pre pe post. pes = pre @ pe # post \<and> rel pe \<le> t \<and> lt_inf \<bar>rel pe - t\<bar> (closestDist s) \<and>
     snd (filter_inTime rel idx t pes s) =
       \<lparr>closestIdx = int (idx pe), closestDist = Some \<bar>rel pe - t\<bar>\<rparr> \<and>
     (\<forall>q\<in>set pre. rel q \<le> t \<longrightarrow> \<bar>rel pe - t\<bar> < \<bar>rel q - t\<bar>) \<and>
     (\<forall>q\<in>set post. rel q \<le> t \<longrightarrow> \<bar>rel pe - t\<bar> \<le> \<bar>rel q - t\<bar>)"
proof (induction pes arbitrary: s)
  case Nil
  then show ?case by simp
next
  case (Cons x xs)
  let ?d = "\<lambda>q. \<bar>rel q - t\<bar>"
  show ?case
  proof (cases "rel x \<le> t \<and> lt_inf (?d x) (closestDist s)")
    case True
    let ?s' = "\<lparr>closestIdx = int (idx x), closestDist = Some (?d x)\<rparr>"
    have step: "snd (filter_inTime rel idx t (x # xs) s) = snd (filter_inTime rel idx t xs ?s')"
      using True by (auto simp: Let_def)
    show ?thesis
    proof (cases "\<exists>pe\<in>set xs. rel pe \<le> t \<and> lt_inf (?d pe) (closestDist ?s')")
      case better: True
      from Cons.IH[OF better] obtain pre pe post where
        xs: "xs = pre @ pe # post" and el: "rel pe \<le> t" and lt: "lt_inf (?d pe) (closestDist ?s')"
        and st: "snd (filter_inTime rel idx t xs ?s') = \<lparr>closestIdx = int (idx pe), closestDist = Some (?d pe)\<rparr>"
        and pre: "\<forall>q\<in>set pre. rel q \<le> t \<longrightarrow> ?d pe < ?d q"
        and post: "\<forall>q\<in>set post. rel q \<le> t \<longrightarrow> ?d pe \<le> ?d q"
        by blast
      from lt have lt': "?d pe < ?d x" by (simp add: lt_inf_def)
      with True have "lt_inf (?d pe) (closestDist s)"
        by (auto simp: lt_inf_def split: option.splits)
      moreover have "x # xs = (x # pre) @ pe # post" using xs by simp
      moreover have "\<forall>q\<in>set (x # pre). rel q \<le> t \<longrightarrow> ?d pe < ?d q"
        using pre lt' by auto
      ultimately show ?thesis using el st post step by metis
    next
      case nobetter: False
      then have "snd (filter_inTime rel idx t xs ?s') = ?s'"
        by (intro scan_keep) auto
      moreover have "\<forall>q\<in>set xs. rel q \<le> t \<longrightarrow> ?d x \<le> ?d q"
        using nobetter by (auto simp: lt_inf_def)
      moreover have "x # xs = [] @ x # xs" by simp
      ultimately show ?thesis using True step
        by (metis empty_iff list.set(1))
    qed
  next
    case False
    then have step: "snd (filter_inTime rel idx t (x # xs) s) = snd (filter_inTime rel idx t xs s)"
      by (auto simp: Let_def)
    from Cons.prems False have ex: "\<exists>pe\<in>set xs. rel pe \<le> t \<and> lt_inf (?d pe) (closestDist s)"
      by auto
    from Cons.IH[OF ex] obtain pre pe post where
      xs: "xs = pre @ pe # post" and el: "rel pe \<le> t" and lt: "lt_inf (?d pe) (closestDist s)"
      and st: "snd (filter_inTime rel idx t xs s) = \<lparr>closestIdx = int (idx pe), closestDist = Some (?d pe)\<rparr>"
      and pre: "\<forall>q\<in>set pre. rel q \<le> t \<longrightarrow> ?d pe < ?d q"
      and post: "\<forall>q\<in>set post. rel q \<le> t \<longrightarrow> ?d pe \<le> ?d q"
      by blast
    have "rel x \<le> t \<longrightarrow> ?d pe < ?d x"
      using False lt by (auto simp: lt_inf_def split: option.splits)
    then have "\<forall>q\<in>set (x # pre). rel q \<le> t \<longrightarrow> ?d pe < ?d q"
      using pre by auto
    moreover have "x # xs = (x # pre) @ pe # post" using xs by simp
    ultimately show ?thesis using el lt st post step by metis
  qed
qed

lemma view_visible:
  "visibleEntries (timeline_view rel idx cat pes t f) =
     (if f = ''all'' then filter (\<lambda>pe. rel pe \<le> t) pes
      else filter (\<lambda>pe. cat pe = f) (filter (\<lambda>pe. rel pe \<le> t) pes))"
  by (simp add: timeline_view_def Let_def filter_inTime_fst)


lemma view_closest_cases:
  assumes idx: "\<forall>i<length pes. idx (pes ! i) = i"
  shows "(closestIndex (timeline_view rel idx cat pes t f) = - 1 \<and>
          (\<forall>k<length pes. rel (pes ! k) \<le> t \<longrightarrow> 1500 \<le> \<bar>rel (pes ! k) - t\<bar>)) \<or>
         (\<exists>i<length pes. closestIndex (timeline_view rel idx cat pes t f) = int i \<and>
            rel (pes ! i) \<le> t \<and> \<bar>rel (pes ! i) - t\<bar> < 1500 \<and>
            (\<forall>k<length pes. rel (pes ! k) \<le> t \<longrightarrow> \<bar>rel (pes ! i) - t\<bar> \<le> \<bar>rel (pes ! k) - t\<bar>) \<and>
            (\<forall>k<i. rel (pes ! k) \<le> t \<longrightarrow> \<bar>rel (pes ! i) - t\<bar> < \<bar>rel (pes ! k) - t\<bar>))"
proof -
  let ?s0 = "\<lparr>closestIdx = - 1, closestDist = None\<rparr>"
  let ?d = "\<lambda>q. \<bar>rel q - t\<bar>"
  let ?ci = "closestIndex (timeline_view rel idx cat pes t f)"
  show ?thesis
  proof (cases "\<exists>pe\<in>set pes. rel pe \<le> t")
    case False
    then have "snd (filter_inTime rel idx t pes ?s0) = ?s0"
      by (intro scan_keep) auto
    then have "?ci = - 1"
      by (simp add: timeline_view_def Let_def ge_inf_def)
    moreover have "\<forall>k<length pes. rel (pes ! k) \<le> t \<longrightarrow> 1500 \<le> ?d (pes ! k)"
      using False by (meson nth_mem)
    ultimately show ?thesis by blast
  next
    case True
    then have "\<exists>pe\<in>set pes. rel pe \<le> t \<and> lt_inf (?d pe) (closestDist ?s0)"
      by (simp add: lt_inf_def)
    from scan_improve[OF this] obtain pre pe post where
      pes: "pes = pre @ pe # post" and el: "rel pe \<le> t"
      and st: "snd (filter_inTime rel idx t pes ?s0) = \<lparr>closestIdx = int (idx pe), closestDist = Some (?d pe)\<rparr>"
      and pre: "\<forall>q\<in>set pre. rel q \<le> t \<longrightarrow> ?d pe < ?d q"
      and post: "\<forall>q\<in>set post. rel q \<le> t \<longrightarrow> ?d pe \<le> ?d q"
      by blast
    define i where "i = length pre"
    have i: "i < length pes" and pei: "pes ! i = pe"
      using pes by (simp_all add: i_def)
    have idxi: "idx pe = i" using idx i pei by auto
    have ci: "?ci = (if 1500 \<le> ?d pe then - 1 else int i)"
      using st idxi by (simp add: timeline_view_def Let_def ge_inf_def)
    have before: "\<forall>k<i. rel (pes ! k) \<le> t \<longrightarrow> ?d pe < ?d (pes ! k)"
    proof (intro allI impI)
      fix k assume "k < i" "rel (pes ! k) \<le> t"
      then have "pes ! k \<in> set pre" by (simp add: pes i_def nth_append)
      then show "?d pe < ?d (pes ! k)" using pre \<open>rel (pes ! k) \<le> t\<close> by blast
    qed
    have all: "\<forall>k<length pes. rel (pes ! k) \<le> t \<longrightarrow> ?d pe \<le> ?d (pes ! k)"
    proof (intro allI impI)
      fix k assume k: "k < length pes" and e: "rel (pes ! k) \<le> t"
      consider "k < i" | "k = i" | "i < k" by linarith
      then show "?d pe \<le> ?d (pes ! k)"
      proof cases
        case 1
        then show ?thesis using before e by fastforce
      next
        case 2
        then show ?thesis using pei by simp
      next
        case 3
        then have "pes ! k \<in> set post"
          using k by (auto simp: pes i_def nth_append nth_Cons split: nat.splits)
        then show ?thesis using post e by blast
      qed
    qed
    show ?thesis
    proof (cases "1500 \<le> ?d pe")
      case True
      then have "?ci = - 1" using ci by simp
      moreover have "\<forall>k<length pes. rel (pes ! k) \<le> t \<longrightarrow> 1500 \<le> ?d (pes ! k)"
        using all True by fastforce
      ultimately show ?thesis by blast
    next
      case False
      then have "?ci = int i" using ci by simp
      then show ?thesis using i pei el False before all
        by (intro disjI2 exI[of _ i]) auto
    qed
  qed
qed

lemma view_nearest_reported:
  assumes idx: "\<forall>i<length pes. idx (pes ! i) = i"
    and j: "j < length pes" and el: "rel (pes ! j) \<le> t"
    and near: "\<bar>rel (pes ! j) - t\<bar> < 1500"
    and least: "\<forall>k<length pes. rel (pes ! k) \<le> t \<longrightarrow> \<bar>rel (pes ! j) - t\<bar> \<le> \<bar>rel (pes ! k) - t\<bar>"
  shows "\<exists>i\<le>j. closestIndex (timeline_view rel idx cat pes t f) = int i \<and>
           rel (pes ! i) = rel (pes ! j) \<and> (\<forall>k<i. rel (pes ! k) \<noteq> rel (pes ! j))"
proof -
  from view_closest_cases[OF idx, where rel=rel and t=t and cat=cat and f=f]
  consider
    (none) "\<forall>k<length pes. rel (pes ! k) \<le> t \<longrightarrow> 1500 \<le> \<bar>rel (pes ! k) - t\<bar>"
  | (some) i where "i < length pes" "closestIndex (timeline_view rel idx cat pes t f) = int i"
      "rel (pes ! i) \<le> t"
      "\<forall>k<length pes. rel (pes ! k) \<le> t \<longrightarrow> \<bar>rel (pes ! i) - t\<bar> \<le> \<bar>rel (pes ! k) - t\<bar>"
      "\<forall>k<i. rel (pes ! k) \<le> t \<longrightarrow> \<bar>rel (pes ! i) - t\<bar> < \<bar>rel (pes ! k) - t\<bar>"
    by blast
  then show ?thesis
  proof cases
    case none
    then show ?thesis using j el near by fastforce
  next
    case some
    have "\<bar>rel (pes ! i) - t\<bar> = \<bar>rel (pes ! j) - t\<bar>"
      using some(1,3,4) j el least by (meson order_antisym)
    then have eq: "rel (pes ! i) = rel (pes ! j)"
      using some(3) el by linarith
    have "i \<le> j"
    proof (rule ccontr)
      assume "\<not> i \<le> j"
      then have "j < i" by simp
      then show False using some(5) el eq by fastforce
    qed
    moreover have "\<forall>k<i. rel (pes ! k) \<noteq> rel (pes ! j)"
    proof (intro allI impI notI)
      fix k assume "k < i" "rel (pes ! k) = rel (pes ! j)"
      then show False using some(5) el eq by fastforce
    qed
    ultimately show ?thesis using some(2) eq by blast
  qed
qed

lemma view_nearest_none:
  assumes idx: "\<forall>i<length pes. idx (pes ! i) = i"
    and far: "\<forall>k<length pes. rel (pes ! k) \<le> t \<longrightarrow> 1500 \<le> \<bar>rel (pes ! k) - t\<bar>"
  shows "closestIndex (timeline_view rel idx cat pes t f) = - 1"
  using view_closest_cases[OF idx, where rel=rel and t=t and cat=cat and f=f] far by fastforce

lemma net_processed_length: "length (net_processedEntries p es) = length es"
  by (simp add: net_processedEntries_def)

lemma net_processed_nth:
  "i < length es \<Longrightarrow> net_processedEntries p es ! i =
     \<lparr>n_entry = es ! i, n_index = i, n_filterType = getFilterType p (es ! i)\<rparr>"
  by (simp add: net_processedEntries_def nth_enumerate_eq)

lemma con_processed_length: "length (con_processedEntries es) = length es"
  by (simp add: con_processedEntries_def)

lemma con_processed_nth:
  "i < length es \<Longrightarrow> con_processedEntries es ! i =
     \<lparr>c_entry = es ! i, c_index = i, c_level = getLevel (es ! i),
      c_filterLevel = getFilterLevel (es ! i)\<rparr>"
  by (simp add: con_processedEntries_def nth_enumerate_eq)

lemma net_idx:
  "\<forall>i<length (net_processedEntries p es). n_index (net_processedEntries p es ! i) = i"
  by (simp add: net_processed_length net_processed_nth)

lemma con_idx:
  "\<forall>i<length (con_processedEntries es). c_index (con_processedEntries es ! i) = i"
  by (simp add: con_processed_length con_processed_nth)

lemma net_rel_nth:
  "k < length es \<Longrightarrow>
   net_relativeMs (n_entry (net_processedEntries p es ! k)) = net_relativeMs (es ! k)"
  by (simp add: net_processed_nth)

lemma con_rel_nth:
  "k < length es \<Longrightarrow>
   con_relativeMs (c_entry (con_processedEntries es ! k)) = con_relativeMs (es ! k)"
  by (simp add: con_processed_nth)

lemma net_nearest_reported:
  assumes "j < length es" "net_relativeMs (es ! j) \<le> t" "\<bar>net_relativeMs (es ! j) - t\<bar> < 1500"
    "\<forall>k<length es. net_relativeMs (es ! k) \<le> t \<longrightarrow>
        \<bar>net_relativeMs (es ! j) - t\<bar> \<le> \<bar>net_relativeMs (es ! k) - t\<bar>"
  shows "\<exists>i\<le>j. closestIndex (NetworkViewer p es t f) = int i \<and>
           net_relativeMs (es ! i) = net_relativeMs (es ! j) \<and>
           (\<forall>k<i. net_relativeMs (es ! k) \<noteq> net_relativeMs (es ! j))"
proof -
  let ?pes = "net_processedEntries p es"
  let ?rel = "\<lambda>pe. net_relativeMs (n_entry pe)"
  have "\<exists>i\<le>j. closestIndex (timeline_view ?rel n_index n_filterType ?pes t f) = int i \<and>
          ?rel (?pes ! i) = ?rel (?pes ! j) \<and> (\<forall>k<i. ?rel (?pes ! k) \<noteq> ?rel (?pes ! j))"
    by (rule view_nearest_reported[OF net_idx])
       (use assms in \<open>simp_all add: net_processed_length net_rel_nth\<close>)
  then obtain i where "i \<le> j"
    and "closestIndex (timeline_view ?rel n_index n_filterType ?pes t f) = int i"
    and "?rel (?pes ! i) = ?rel (?pes ! j)" and "\<forall>k<i. ?rel (?pes ! k) \<noteq> ?rel (?pes ! j)"
    by blast
  then show ?thesis
    unfolding NetworkViewer_def using assms(1)
    by (intro exI[of _ i]) (simp add: net_rel_nth)
qed

lemma net_nearest_none:
  assumes "\<forall>k<length es. net_relativeMs (es ! k) \<le> t \<longrightarrow> 1500 \<le> \<bar>net_relativeMs (es ! k) - t\<bar>"
  shows "closestIndex (NetworkViewer p es t f) = - 1"
  unfolding NetworkViewer_def
  by (rule view_nearest_none[OF net_idx]) (use assms in \<open>simp add: net_processed_length net_rel_nth\<close>)

lemma con_nearest_reported:
  assumes "j < length es" "con_relativeMs (es ! j) \<le> t" "\<bar>con_relativeMs (es ! j) - t\<bar> < 1500"
    "\<forall>k<length es. con_relativeMs (es ! k) \<le> t \<longrightarrow>
        \<bar>con_relativeMs (es ! j) - t\<bar> \<le> \<bar>con_relativeMs (es ! k) - t\<bar>"
  shows "\<exists>i\<le>j. closestIndex (ConsoleViewer es t f) = int i \<and>
           con_relativeMs (es ! i) = con_relativeMs (es ! j) \<and>
           (\<forall>k<i. con_relativeMs (es ! k) \<noteq> con_relativeMs (es ! j))"
proof -
  let ?pes = "con_processedEntries es"
  let ?rel = "\<lambda>pe. con_relativeMs (c_entry pe)"
  have "\<exists>i\<le>j. closestIndex (timeline_view ?rel c_index c_filterLevel ?pes t f) = int i \<and>
          ?rel (?pes ! i) = ?rel (?pes ! j) \<and> (\<forall>k<i. ?rel (?pes ! k) \<noteq> ?rel (?pes ! j))"
    by (rule view_nearest_reported[OF con_idx])
       (use assms in \<open>simp_all add: con_processed_length con_rel_nth\<close>)
  then obtain i where "i \<le> j"
    and "closestIndex (timeline_view ?rel c_index c_filterLevel ?pes t f) = int i"
    and "?rel (?pes ! i) = ?rel (?pes ! j)" and "\<forall>k<i. ?rel (?pes ! k) \<noteq> ?rel (?pes ! j)"
    by blast
  then show ?thesis
    unfolding ConsoleViewer_def using assms(1)
    by (intro exI[of _ i]) (simp add: con_rel_nth)
qed

lemma con_nearest_none:
  assumes "\<forall>k<length es. con_relativeMs (es ! k) \<le> t \<longrightarrow> 1500 \<le> \<bar>con_relativeMs (es ! k) - t\<bar>"
  shows "closestIndex (ConsoleViewer es t f) = - 1"
  unfolding ConsoleViewer_def
  by (rule view_nearest_none[OF con_idx]) (use assms in \<open>simp add: con_processed_length con_rel_nth\<close>)

text \<open>
  Claim C1. In both viewers: when an eligible entry \<open>j\<close> is less than 1500 ms from the
  playback time and no eligible entry is nearer, the reported index is an entry at the
  same time as \<open>j\<close>: the earliest one in the list, which is \<open>j\<close> itself unless an
  earlier entry has the same \<^verbatim>\<open>relativeMs\<close> (the comparison \<^verbatim>\<open>dist < closestDist\<close> is
  strict, so the first of several equally near entries stays). When every eligible entry
  is 1500 ms or more away, the index is \<open>-1\<close>, also when there is just one.
\<close>

theorem nearest_window_boundary:
  fixes es :: "NetworkLogEntry list" and cs :: "ConsoleLogEntry list"
    and p :: "string \<Rightarrow> string option" and t :: real and f g :: string
  defines "ni \<equiv> closestIndex (NetworkViewer p es t f)"
    and "ki \<equiv> closestIndex (ConsoleViewer cs t g)"
  shows
    "(\<forall>j<length es.
        net_relativeMs (es ! j) \<le> t \<and> \<bar>net_relativeMs (es ! j) - t\<bar> < 1500 \<and>
        (\<forall>k<length es. net_relativeMs (es ! k) \<le> t \<longrightarrow>
            \<bar>net_relativeMs (es ! j) - t\<bar> \<le> \<bar>net_relativeMs (es ! k) - t\<bar>) \<longrightarrow>
        (\<exists>i\<le>j. ni = int i \<and> net_relativeMs (es ! i) = net_relativeMs (es ! j) \<and>
            (\<forall>k<i. net_relativeMs (es ! k) \<noteq> net_relativeMs (es ! j))) \<and>
        ((\<forall>k<j. net_relativeMs (es ! k) \<noteq> net_relativeMs (es ! j)) \<longrightarrow> ni = int j)) \<and>
     ((\<forall>k<length es. net_relativeMs (es ! k) \<le> t \<longrightarrow> 1500 \<le> \<bar>net_relativeMs (es ! k) - t\<bar>) \<longrightarrow>
        ni = - 1) \<and>
     (\<forall>j<length cs.
        con_relativeMs (cs ! j) \<le> t \<and> \<bar>con_relativeMs (cs ! j) - t\<bar> < 1500 \<and>
        (\<forall>k<length cs. con_relativeMs (cs ! k) \<le> t \<longrightarrow>
            \<bar>con_relativeMs (cs ! j) - t\<bar> \<le> \<bar>con_relativeMs (cs ! k) - t\<bar>) \<longrightarrow>
        (\<exists>i\<le>j. ki = int i \<and> con_relativeMs (cs ! i) = con_relativeMs (cs ! j) \<and>
            (\<forall>k<i. con_relativeMs (cs ! k) \<noteq> con_relativeMs (cs ! j))) \<and>
        ((\<forall>k<j. con_relativeMs (cs ! k) \<noteq> con_relativeMs (cs ! j)) \<longrightarrow> ki = int j)) \<and>
     ((\<forall>k<length cs. con_relativeMs (cs ! k) \<le> t \<longrightarrow> 1500 \<le> \<bar>con_relativeMs (cs ! k) - t\<bar>) \<longrightarrow>
        ki = - 1)"
proof (intro conjI allI impI)
  fix j
  assume j: "j < length es"
    and h: "net_relativeMs (es ! j) \<le> t \<and> \<bar>net_relativeMs (es ! j) - t\<bar> < 1500 \<and>
        (\<forall>k<length es. net_relativeMs (es ! k) \<le> t \<longrightarrow>
            \<bar>net_relativeMs (es ! j) - t\<bar> \<le> \<bar>net_relativeMs (es ! k) - t\<bar>)"
  from net_nearest_reported[OF j, of t p f] h
  show first: "\<exists>i\<le>j. ni = int i \<and> net_relativeMs (es ! i) = net_relativeMs (es ! j) \<and>
            (\<forall>k<i. net_relativeMs (es ! k) \<noteq> net_relativeMs (es ! j))"
    unfolding ni_def by blast
  assume "\<forall>k<j. net_relativeMs (es ! k) \<noteq> net_relativeMs (es ! j)"
  with first show "ni = int j"
    by (metis le_neq_implies_less)
next
  assume "\<forall>k<length es. net_relativeMs (es ! k) \<le> t \<longrightarrow> 1500 \<le> \<bar>net_relativeMs (es ! k) - t\<bar>"
  then show "ni = - 1" unfolding ni_def by (rule net_nearest_none)
next
  fix j
  assume j: "j < length cs"
    and h: "con_relativeMs (cs ! j) \<le> t \<and> \<bar>con_relativeMs (cs ! j) - t\<bar> < 1500 \<and>
        (\<forall>k<length cs. con_relativeMs (cs ! k) \<le> t \<longrightarrow>
            \<bar>con_relativeMs (cs ! j) - t\<bar> \<le> \<bar>con_relativeMs (cs ! k) - t\<bar>)"
  from con_nearest_reported[OF j, of t g] h
  show first: "\<exists>i\<le>j. ki = int i \<and> con_relativeMs (cs ! i) = con_relativeMs (cs ! j) \<and>
            (\<forall>k<i. con_relativeMs (cs ! k) \<noteq> con_relativeMs (cs ! j))"
    unfolding ki_def by blast
  assume "\<forall>k<j. con_relativeMs (cs ! k) \<noteq> con_relativeMs (cs ! j)"
  with first show "ki = int j"
    by (metis le_neq_implies_less)
next
  assume "\<forall>k<length cs. con_relativeMs (cs ! k) \<le> t \<longrightarrow> 1500 \<le> \<bar>con_relativeMs (cs ! k) - t\<bar>"
  then show "ki = - 1" unfolding ki_def by (rule con_nearest_none)
qed

theorem nearest_window_boundary_witness:
  "net_relativeMs ([net_at 0, net_at 1] ! 1) \<le> 1500 \<and>
   \<bar>net_relativeMs ([net_at 0, net_at 1] ! 1) - 1500\<bar> = 1499 \<and>
   closestIndex (NetworkViewer (\<lambda>u. None) [net_at 0, net_at 1] 1500 ''all'') = 1 \<and>
   con_relativeMs ([con_at 0] ! 0) \<le> 1500 \<and>
   \<bar>con_relativeMs ([con_at 0] ! 0) - 1500\<bar> = 1500 \<and>
   closestIndex (ConsoleViewer [con_at 0] 1500 ''all'') = - 1"
  using nearest_window_boundary[where es="[net_at 0, net_at 1]" and cs="[con_at 0]"
      and t=1500 and p="\<lambda>u. None" and f="''all''" and g="''all''"]
  by (simp add: net_at_def con_at_def All_less_Suc numeral_2_eq_2)

text \<open>Two entries at the same time: the earlier one is the nearest.\<close>

lemma nearest_tie_earliest:
  "closestIndex (NetworkViewer p [net_at 0, net_at 0] 0 f) = 0 \<and>
   closestIndex (ConsoleViewer [con_at 0, con_at 0] 0 g) = 0"
  by (simp add: NetworkViewer_def ConsoleViewer_def net_processedEntries_def
      con_processedEntries_def timeline_view_def Let_def lt_inf_def ge_inf_def net_at_def
      con_at_def)

lemma net_visible:
  "visibleEntries (NetworkViewer p es t f) =
     (if f = ''all'' then filter (\<lambda>pe. net_relativeMs (n_entry pe) \<le> t) (net_processedEntries p es)
      else filter (\<lambda>pe. n_filterType pe = f)
             (filter (\<lambda>pe. net_relativeMs (n_entry pe) \<le> t) (net_processedEntries p es)))"
  by (simp add: NetworkViewer_def view_visible)

lemma con_visible:
  "visibleEntries (ConsoleViewer es t f) =
     (if f = ''all'' then filter (\<lambda>pe. con_relativeMs (c_entry pe) \<le> t) (con_processedEntries es)
      else filter (\<lambda>pe. c_filterLevel pe = f)
             (filter (\<lambda>pe. con_relativeMs (c_entry pe) \<le> t) (con_processedEntries es)))"
  by (simp add: ConsoleViewer_def view_visible)

text \<open>
  Claim C3. With the filter fixed, every entry visible at playback time \<open>t1\<close> is visible
  at every later time \<open>t2\<close>, in both viewers.
\<close>

theorem visibility_monotone:
  assumes "t1 < t2"
  shows "set (visibleEntries (NetworkViewer p es t1 f)) \<subseteq>
           set (visibleEntries (NetworkViewer p es t2 f)) \<and>
         set (visibleEntries (ConsoleViewer cs t1 g)) \<subseteq>
           set (visibleEntries (ConsoleViewer cs t2 g))"
  using assms by (auto simp: net_visible con_visible)

theorem visibility_monotone_witness:
  "(0::real) < 1 \<and>
   set (visibleEntries (NetworkViewer (\<lambda>u. None) [net_at 0, net_at 1] 0 ''all'')) \<subseteq>
   set (visibleEntries (NetworkViewer (\<lambda>u. None) [net_at 0, net_at 1] 1 ''all'')) \<and>
   length (visibleEntries (NetworkViewer (\<lambda>u. None) [net_at 0, net_at 1] 0 ''all'')) = 1 \<and>
   length (visibleEntries (NetworkViewer (\<lambda>u. None) [net_at 0, net_at 1] 1 ''all'')) = 2"
proof -
  have h: "(0::real) < 1" by simp
  show ?thesis
    using h visibility_monotone[OF h, of "\<lambda>u. None" "[net_at 0, net_at 1]" "''all''" "[]" "''all''"]
    by (simp add: net_visible net_processedEntries_def net_at_def)
qed

lemma getFilterType_range: "getFilterType p e \<in> set (tl FILTER_TYPES)"
proof -
  have ext: "v \<in> set (tl FILTER_TYPES)" if "map_of STATIC_EXT_MAP k = Some v" for k v
  proof -
    from that have "(k, v) \<in> set STATIC_EXT_MAP" by (rule map_of_SomeD)
    then have "v \<in> snd ` set STATIC_EXT_MAP" by force
    then show ?thesis by (auto simp: STATIC_EXT_MAP_def FILTER_TYPES_def)
  qed
  have ty: "a \<in> set (tl FILTER_TYPES)" if "find P TYPE_MAP = Some (a, b)" for P a b
  proof -
    from that have "(a, b) \<in> set TYPE_MAP" by (auto simp: find_Some_iff)
    then have "a \<in> fst ` set TYPE_MAP" by force
    then show ?thesis by (auto simp: TYPE_MAP_def FILTER_TYPES_def)
  qed
  have lit: "''fetch'' \<in> set (tl FILTER_TYPES)" "''other'' \<in> set (tl FILTER_TYPES)"
    by (simp_all add: FILTER_TYPES_def)
  show ?thesis
    unfolding getFilterType_def Let_def
    by (auto split: option.splits intro: ext ty lit)
qed

lemma all_not_concrete: "''all'' \<notin> set (tl FILTER_TYPES)"
  by (simp add: FILTER_TYPES_def)

lemma net_processed_filterType:
  "pe \<in> set (net_processedEntries p es) \<Longrightarrow> n_filterType pe \<in> set (tl FILTER_TYPES)"
  by (auto simp: net_processedEntries_def getFilterType_range)

text \<open>
  Claim C4. In the network viewer, at every playback time, the entries visible under
  \<^verbatim>\<open>"all"\<close> are the union of the entries visible under the nine other filter types; two
  different types share no visible entry; and every entry visible under \<^verbatim>\<open>"all"\<close> is
  visible under exactly one type.
\<close>

theorem filter_completeness:
  fixes p :: "string \<Rightarrow> string option" and es :: "NetworkLogEntry list" and t :: real
  defines "V \<equiv> \<lambda>c. set (visibleEntries (NetworkViewer p es t c))"
  shows "V ''all'' = (\<Union>c\<in>set (tl FILTER_TYPES). V c) \<and>
         (\<forall>c\<in>set (tl FILTER_TYPES). \<forall>c'\<in>set (tl FILTER_TYPES). c \<noteq> c' \<longrightarrow> V c \<inter> V c' = {}) \<and>
         (\<forall>pe\<in>V ''all''. \<exists>!c. c \<in> set (tl FILTER_TYPES) \<and> pe \<in> V c) \<and>
         tl FILTER_TYPES =
           [''fetch'', ''js'', ''css'', ''img'', ''doc'', ''font'', ''media'', ''ws'', ''other'']"
proof -
  let ?E = "set (filter (\<lambda>pe. net_relativeMs (n_entry pe) \<le> t) (net_processedEntries p es))"
  have all: "V ''all'' = ?E"
    by (simp add: V_def net_visible)
  have one: "V c = {pe \<in> ?E. n_filterType pe = c}" if "c \<in> set (tl FILTER_TYPES)" for c
  proof -
    from that all_not_concrete have "c \<noteq> ''all''" by metis
    then show ?thesis by (auto simp: V_def net_visible)
  qed
  have cat: "n_filterType pe \<in> set (tl FILTER_TYPES)" if "pe \<in> ?E" for pe
    using that by (auto intro: net_processed_filterType)
  have union: "V ''all'' = (\<Union>c\<in>set (tl FILTER_TYPES). V c)"
  proof (intro equalityI subsetI)
    fix pe assume "pe \<in> V ''all''"
    then have "pe \<in> ?E" using all by simp
    then have "n_filterType pe \<in> set (tl FILTER_TYPES)" "pe \<in> V (n_filterType pe)"
      using cat one by auto
    then show "pe \<in> (\<Union>c\<in>set (tl FILTER_TYPES). V c)" by blast
  next
    fix pe assume "pe \<in> (\<Union>c\<in>set (tl FILTER_TYPES). V c)"
    then obtain c where "c \<in> set (tl FILTER_TYPES)" "pe \<in> V c" by blast
    then show "pe \<in> V ''all''" using one all by auto
  qed
  have disj: "\<forall>c\<in>set (tl FILTER_TYPES). \<forall>c'\<in>set (tl FILTER_TYPES). c \<noteq> c' \<longrightarrow> V c \<inter> V c' = {}"
    using one by auto
  have uniq: "\<forall>pe\<in>V ''all''. \<exists>!c. c \<in> set (tl FILTER_TYPES) \<and> pe \<in> V c"
  proof
    fix pe assume "pe \<in> V ''all''"
    then have e: "pe \<in> ?E" using all by simp
    show "\<exists>!c. c \<in> set (tl FILTER_TYPES) \<and> pe \<in> V c"
    proof (rule ex1I[of _ "n_filterType pe"])
      show "n_filterType pe \<in> set (tl FILTER_TYPES) \<and> pe \<in> V (n_filterType pe)"
        using e cat one by auto
    next
      fix c assume "c \<in> set (tl FILTER_TYPES) \<and> pe \<in> V c"
      then show "c = n_filterType pe" using one by auto
    qed
  qed
  show ?thesis using union disj uniq by (simp add: FILTER_TYPES_def)
qed

theorem filter_completeness_witness:
  "''other'' \<in> set (tl FILTER_TYPES) \<and> ''js'' \<in> set (tl FILTER_TYPES) \<and>
   set (visibleEntries (NetworkViewer (\<lambda>u. None) [net_at 0] 0 ''other'')) \<inter>
     set (visibleEntries (NetworkViewer (\<lambda>u. None) [net_at 0] 0 ''js'')) = {} \<and>
   length (visibleEntries (NetworkViewer (\<lambda>u. None) [net_at 0] 0 ''all'')) = 1 \<and>
   visibleEntries (NetworkViewer (\<lambda>u. None) [net_at 0] 0 ''other'') =
     visibleEntries (NetworkViewer (\<lambda>u. None) [net_at 0] 0 ''all'')"
proof -
  have mem: "''other'' \<in> set (tl FILTER_TYPES)" "''js'' \<in> set (tl FILTER_TYPES)"
    by (simp_all add: FILTER_TYPES_def)
  have ne: "''other'' \<noteq> ''js''" by simp
  have "set (visibleEntries (NetworkViewer (\<lambda>u. None) [net_at 0] 0 ''other'')) \<inter>
     set (visibleEntries (NetworkViewer (\<lambda>u. None) [net_at 0] 0 ''js'')) = {}"
    by (rule filter_completeness[of "\<lambda>u. None" "[net_at 0]" 0, THEN conjunct2, THEN conjunct1,
          rule_format, OF mem ne])
  moreover have "getFilterType (\<lambda>u. None) (net_at 0) = ''other''"
    by (simp add: getFilterType_def net_at_def or_str_def TYPE_MAP_def)
  ultimately show ?thesis
    using mem by (simp add: net_visible net_processedEntries_def net_at_def)
qed






text \<open>
  The console viewer has no such partition: the level of an entry is any string, and an
  entry whose level is none of \<open>FILTER_LEVELS\<close> is visible under \<^verbatim>\<open>"all"\<close> only.
\<close>

lemma console_level_outside_filters:
  "getFilterLevel ((con_at 0)\<lparr>con_level := Some ''warning''\<rparr>) = ''warning'' \<and>
   ''warning'' \<notin> set FILTER_LEVELS \<and>
   length (visibleEntries (ConsoleViewer [(con_at 0)\<lparr>con_level := Some ''warning''\<rparr>] 0 ''all'')) = 1 \<and>
   (c \<in> set (tl FILTER_LEVELS) \<longrightarrow>
      visibleEntries (ConsoleViewer [(con_at 0)\<lparr>con_level := Some ''warning''\<rparr>] 0 c) = [])"
proof -
  have lv: "getFilterLevel ((con_at 0)\<lparr>con_level := Some ''warning''\<rparr>) = ''warning''"
    by (simp add: getFilterLevel_def getLevel_def isNewFormat_def con_at_def or_str_def)
  have "c \<noteq> ''all'' \<and> c \<noteq> ''warning''" if "c \<in> set (tl FILTER_LEVELS)"
    using that by (auto simp: FILTER_LEVELS_def)
  then show ?thesis
    using lv by (auto simp: con_visible con_processedEntries_def FILTER_LEVELS_def con_at_def)
qed

section \<open>Properties of the resource classifier\<close>

lemma lastIndexOf_absent: "c \<notin> set ys \<Longrightarrow> lastIndexOf c ys = None"
  by (induction ys) auto

lemma lastIndexOf_last: "c \<notin> set ys \<Longrightarrow> lastIndexOf c (xs @ c # ys) = Some (length xs)"
  by (induction xs) (simp_all add: lastIndexOf_absent)

lemma ext_png: "map_of STATIC_EXT_MAP (toLowerCase ''.png'') = Some ''img''"
  by (simp add: STATIC_EXT_MAP_def toLowerCase_def lower_char_def)

text \<open>
  Claim C5. The classifier returns one of the nine filter types for every entry and every
  answer of the URL parser. A declared type \<^verbatim>\<open>"XHR"\<close> with a URL whose pathname ends in
  \<^verbatim>\<open>.png\<close> gives \<^verbatim>\<open>"img"\<close>, the tag of the image category; the query string is not
  part of the pathname. \<^verbatim>\<open>"Script"\<close> gives \<^verbatim>\<open>"js"\<close> whatever the URL. \<^verbatim>\<open>"XHR"\<close>
  with a URL the parser rejects gives \<^verbatim>\<open>"fetch"\<close>. A declared type that is none of the
  nine known ones, or is absent, gives \<^verbatim>\<open>"other"\<close>.
\<close>

theorem classifier_examples:
  "(net_resourceType e = Some ''XHR'' \<and> pathname_of (entry_url e) = Some (dir @ ''.png'') \<longrightarrow>
      getFilterType pathname_of e = ''img'') \<and>
   (net_resourceType e = Some ''Script'' \<longrightarrow> getFilterType pathname_of e = ''js'') \<and>
   (net_resourceType e = Some ''XHR'' \<and> pathname_of (entry_url e) = None \<longrightarrow>
      getFilterType pathname_of e = ''fetch'') \<and>
   (net_resourceType e \<notin>
      Some ` set [''XHR'', ''Fetch'', ''Script'', ''Stylesheet'', ''Image'', ''Document'', ''Font'',
                  ''Media'', ''WebSocket''] \<longrightarrow>
      getFilterType pathname_of e = ''other'') \<and>
   getFilterType pathname_of e \<in>
     set [''fetch'', ''js'', ''css'', ''img'', ''doc'', ''font'', ''media'', ''ws'', ''other'']"
proof (intro conjI impI)
  assume h: "net_resourceType e = Some ''XHR'' \<and> pathname_of (entry_url e) = Some (dir @ ''.png'')"
  have "lastIndexOf CHR ''.'' (dir @ CHR ''.'' # ''png'') = Some (length dir)"
    by (rule lastIndexOf_last) simp
  then show "getFilterType pathname_of e = ''img''"
    using h ext_png by (simp add: getFilterType_def or_str_def)
next
  assume "net_resourceType e = Some ''Script''"
  then show "getFilterType pathname_of e = ''js''"
    by (simp add: getFilterType_def or_str_def TYPE_MAP_def)
next
  assume "net_resourceType e = Some ''XHR'' \<and> pathname_of (entry_url e) = None"
  then show "getFilterType pathname_of e = ''fetch''"
    by (simp add: getFilterType_def or_str_def)
next
  assume h: "net_resourceType e \<notin>
      Some ` set [''XHR'', ''Fetch'', ''Script'', ''Stylesheet'', ''Image'', ''Document'', ''Font'',
                  ''Media'', ''WebSocket'']"
  show "getFilterType pathname_of e = ''other''"
  proof (cases "net_resourceType e")
    case None
    then show ?thesis by (simp add: getFilterType_def or_str_def TYPE_MAP_def)
  next
    case (Some s)
    with h show ?thesis by (simp add: getFilterType_def or_str_def TYPE_MAP_def)
  qed
next
  show "getFilterType pathname_of e \<in>
     set [''fetch'', ''js'', ''css'', ''img'', ''doc'', ''font'', ''media'', ''ws'', ''other'']"
    using getFilterType_range[of pathname_of e] by (simp add: FILTER_TYPES_def)
qed

theorem classifier_examples_witness:
  "net_resourceType (xhr_of ''https://cdn.example/img/a.png?x=1'') = Some ''XHR'' \<and>
   pathname_example (entry_url (xhr_of ''https://cdn.example/img/a.png?x=1'')) =
     Some (''/img/a'' @ ''.png'') \<and>
   getFilterType pathname_example (xhr_of ''https://cdn.example/img/a.png?x=1'') = ''img'' \<and>
   pathname_example (entry_url (xhr_of ''http://'')) = None \<and>
   getFilterType pathname_example (xhr_of ''http://'') = ''fetch''"
proof -
  let ?e = "xhr_of ''https://cdn.example/img/a.png?x=1''"
  have a: "net_resourceType ?e = Some ''XHR''"
    and b: "net_resourceType (xhr_of ''http://'') = Some ''XHR''"
    by (simp_all add: xhr_of_def)
  have u: "pathname_example (entry_url ?e) = Some (''/img/a'' @ ''.png'')"
    and v: "pathname_example (entry_url (xhr_of ''http://'')) = None"
    by (simp_all add: xhr_of_def entry_url_def or_opt_def or_str_def truthy_str_def
        pathname_example_def)
  from classifier_examples[of ?e pathname_example "''/img/a''"] a u
  have "getFilterType pathname_example ?e = ''img''" by blast
  moreover from classifier_examples[of "xhr_of ''http://''" pathname_example] b v
  have "getFilterType pathname_example (xhr_of ''http://'') = ''fetch''" by blast
  ultimately show ?thesis using a u v by blast
qed

section \<open>Properties of the renderer and of the markers\<close>

lemma show_42: "show_int 42 = ''42''"
  by (simp add: show_int_def show_nat.simps digit_char_def)

lemma render_42: "renderRemoteObject (Some number_42) = span ''text-gh-blue-num'' ''42''"
  by (simp add: renderRemoteObject_def number_42_def description_or_value_def truthy_str_def
      show_42)

lemma text_42: "textContent (renderRemoteObject (Some number_42)) = ''42''"
  by (simp add: render_42 span_def textContent_def)

lemma sub_42: "sublist ''42'' (renderRemoteObject (Some number_42))"
  unfolding render_42 span_def by (simp add: sublist_code prefix_code)

lemma text_array:
  "textContent (renderRemoteObject (Some (array_1_2 None))) = ''[1, 2]''"
  "textContent (renderRemoteObject (Some (array_1_2 (Some True)))) = ''[1, 2, ...]''"
  by (simp_all add: renderRemoteObject_def renderObjectPreview_def array_1_2_def
      array_preview_def span_def tmpl_def textContent_def)

lemma overflow_suffix:
  "ps \<noteq> [] \<Longrightarrow>
   suffix ('', ...'' @ (if st = Some ''array'' then '']'' else ''}''))
     (renderPreview (ObjectPreviewValue ty st d (Some True) (Some ps)) cn)"
  by (simp add: Let_def suffix_def)

lemma empty_brackets:
  "props = None \<or> props = Some [] \<Longrightarrow>
   renderPreview (ObjectPreviewValue ty st d ov props) cn =
     (if st = Some ''array'' then ''[]'' else if truthy_str cn then tmpl cn @ '' {}'' else ''{}'')"
  by (auto simp: emptyPreview_def)

text \<open>
  Claim C6, as the code has it. A number with value 42 renders as a literal containing
  \<open>42\<close>; an array preview of the numbers 1 and 2 shows as \<open>[1, 2]\<close>, and as
  \<open>[1, 2, ...]\<close> when it overflows. Every preview with the overflow flag and a non-empty
  property list ends in \<open>, ...\<close> and the closing bracket. A preview whose property list
  is absent or empty renders as empty brackets (\<open>[]\<close>, \<open>ClassName {}\<close> or \<open>{}\<close>)
  whatever its overflow flag: that branch returns before the flag is read.
\<close>

theorem overflow_marks_nonempty_previews:
  "sublist ''42'' (renderRemoteObject (Some number_42)) \<and>
   textContent (renderRemoteObject (Some number_42)) = ''42'' \<and>
   textContent (renderRemoteObject (Some (array_1_2 None))) = ''[1, 2]'' \<and>
   textContent (renderRemoteObject (Some (array_1_2 (Some True)))) = ''[1, 2, ...]'' \<and>
   (ps \<noteq> [] \<longrightarrow>
      suffix ('', ...'' @ (if st = Some ''array'' then '']'' else ''}''))
        (renderPreview (ObjectPreviewValue ty st d (Some True) (Some ps)) cn)) \<and>
   (props = None \<or> props = Some [] \<longrightarrow>
      renderPreview (ObjectPreviewValue ty st d ov props) cn =
        (if st = Some ''array'' then ''[]''
         else if truthy_str cn then tmpl cn @ '' {}'' else ''{}''))"
  using sub_42 text_42 text_array overflow_suffix[of ps st ty d cn]
    empty_brackets[of props ty st d ov cn]
  by blast

theorem overflow_marks_nonempty_previews_witness:
  "[PropertyPreviewValue ''0'' ''number'' (Some ''1'') None None] \<noteq> [] \<and>
   suffix '', ...]''
     (renderPreview (array_preview (Some True)
        [PropertyPreviewValue ''0'' ''number'' (Some ''1'') None None]) None) \<and>
   renderPreview (array_preview None []) None = ''[]''"
  using overflow_marks_nonempty_previews[of
      "[PropertyPreviewValue ''0'' ''number'' (Some ''1'') None None]" "Some ''array''"
      "''object''" None None "Some []" None]
  by (simp add: array_preview_def)

text \<open>
  Against the claim as it is written: an array preview with the overflow flag and an empty
  property list renders as \<open>[]\<close>, with no ellipsis in it.
\<close>

theorem overflow_empty_counterexample:
  "pv_overflow (array_preview (Some True) []) = Some True \<and>
   pv_properties (array_preview (Some True) []) = Some [] \<and>
   renderPreview (array_preview (Some True) []) None = ''[]'' \<and>
   \<not> sublist ''...'' (renderPreview (array_preview (Some True) []) None)"
  by (simp add: array_preview_def emptyPreview_def sublist_Cons_right)

lemma push_console_markers_filter:
  "push_console_markers cs m =
     m @ map (\<lambda>e. \<lparr>timeMs = con_relativeMs e, color = ''#f85149'',
                     label = ''Error: '' @ take 80 (marker_message e)\<rparr>)
           (filter (\<lambda>e. con_source e = Some ''exception'' \<or> con_level e = Some ''error'') cs)"
proof (induction cs arbitrary: m)
  case Nil
  then show ?case by simp
next
  case (Cons e cs)
  have "(if con_source e = Some ''exception'' then ''error''
         else if con_source e = Some ''browser'' then or_str (con_level e) ''info''
         else or_str (con_level e) ''log'') = ''error'' \<longleftrightarrow>
        con_source e = Some ''exception'' \<or> con_level e = Some ''error''"
    by (auto simp: or_str_def split: option.splits)
  then show ?case using Cons.IH by (simp add: Let_def)
qed

lemma push_network_markers_map:
  "push_network_markers ns m =
     m @ map (\<lambda>e. \<lparr>timeMs = net_relativeMs e, color = ''#58a6ff'',
                     label = take 80
                       (or_str (or_opt (case net_request e of None \<Rightarrow> None | Some r \<Rightarrow> req_method r)
                                  (net_method e)) ''GET'' @ '' '' @ entry_url e)\<rparr>) ns"
  by (induction ns arbitrary: m) (simp_all add: Let_def)

text \<open>
  Claim C7, as the code has it. The markers are, in order: one red marker for every
  console entry that is an exception or whose level is \<^verbatim>\<open>"error"\<close> (an entry from the
  browser counts only when its own level is \<^verbatim>\<open>"error"\<close>; without a level it is
  \<^verbatim>\<open>"info"\<close>), labelled \<open>Error: \<close> followed by the first 80 characters of the
  message, or of the first argument's description when there is no message; then one blue
  marker for every network entry, whatever its status or error, labelled with the first
  80 characters of the method, a space and the URL.
\<close>

theorem markers_projection:
  "markers cs ns =
     map (\<lambda>e. \<lparr>timeMs = con_relativeMs e, color = ''#f85149'',
                 label = ''Error: '' @ take 80 (marker_message e)\<rparr>)
       (filter (\<lambda>e. con_source e = Some ''exception'' \<or> con_level e = Some ''error'') cs) @
     map (\<lambda>e. \<lparr>timeMs = net_relativeMs e, color = ''#58a6ff'',
                 label = take 80
                   (or_str (or_opt (case net_request e of None \<Rightarrow> None | Some r \<Rightarrow> req_method r)
                              (net_method e)) ''GET'' @ '' '' @ entry_url e)\<rparr>) ns \<and>
   (\<forall>m\<in>set (markers cs ns).
      (color m = ''#58a6ff'' \<longrightarrow> length (label m) \<le> 80) \<and>
      (color m = ''#f85149'' \<longrightarrow> take 7 (label m) = ''Error: '' \<and> length (label m) \<le> 87))"
  by (auto simp: markers_def push_console_markers_filter push_network_markers_map)

theorem markers_projection_witness:
  "map color (markers [exception_long, browser_info] [net_at 5]) = [''#f85149'', ''#58a6ff''] \<and>
   map timeMs (markers [exception_long, browser_info] [net_at 5]) = [0, 5] \<and>
   map label (markers [exception_long, browser_info] [net_at 5]) =
     [''Error: '' @ replicate 80 CHR ''a'', ''GET '']"
  using markers_projection[of "[exception_long, browser_info]" "[net_at 5]"]
  by (simp add: exception_long_def browser_info_def con_at_def net_at_def marker_message_def
      or_opt_def or_str_def truthy_str_def entry_url_def)

text \<open>
  Against the claim as it is written: an entry from the browser with no level of its own
  gets no marker, and the label of a red marker is longer than 80 characters when the
  message is.
\<close>

theorem markers_browser_counterexample:
  "con_source browser_info = Some ''browser'' \<and> markers [browser_info] [] = [] \<and>
   length (label (hd (markers [exception_long] []))) = 87"
  by (simp add: markers_def exception_long_def browser_info_def con_at_def marker_message_def
      or_opt_def or_str_def truthy_str_def)

section \<open>Properties of loading\<close>

lemma net_processed_entries: "map n_entry (net_processedEntries p es) = es"
  by (rule nth_equalityI) (simp_all add: net_processed_length net_processed_nth)

lemma con_processed_entries: "map c_entry (con_processedEntries es) = es"
  by (rule nth_equalityI) (simp_all add: con_processed_length con_processed_nth)

lemma normalizeConsole_set:
  "set (normalizeConsole st logs) =
     (\<lambda>e. e\<lparr>con_relativeMs := con_timestamp e - st\<rparr>) ` set (case logs of None \<Rightarrow> [] | Some es \<Rightarrow> es)"
  by (simp add: normalizeConsole_def)

lemma normalizeConsole_rel:
  "e \<in> set (normalizeConsole st logs) \<Longrightarrow> con_relativeMs e = con_timestamp e - st"
  by (auto simp: normalizeConsole_set)

lemma normalizeConsole_sorted: "sorted (map con_relativeMs (normalizeConsole st logs))"
proof -
  let ?L = "normalizeConsole st logs"
  have "sorted (map con_timestamp ?L)"
    unfolding normalizeConsole_def by (rule sorted_sort_key)
  then have "sorted (map (\<lambda>e. con_timestamp e - st) ?L)"
    by (simp add: sorted_map sorted_wrt_mono_rel[of _ "\<lambda>x y. con_timestamp x \<le> con_timestamp y"])
  moreover have "map con_relativeMs ?L = map (\<lambda>e. con_timestamp e - st) ?L"
    by (rule map_cong) (simp_all add: normalizeConsole_rel)
  ultimately show ?thesis by (simp only:)
qed

lemma normalizeNetwork_set:
  "set (normalizeNetwork st nd) = (\<lambda>e. e\<lparr>net_relativeMs := relativeMsOf st e\<rparr>) ` set (rawNet nd)"
  by (simp add: normalizeNetwork_def)

lemma relativeMsOf_update [simp]: "relativeMsOf st (e\<lparr>net_relativeMs := r\<rparr>) = relativeMsOf st e"
  by (simp add: relativeMsOf_def)

lemma normalizeNetwork_rel:
  "e \<in> set (normalizeNetwork st nd) \<Longrightarrow> net_relativeMs e = relativeMsOf st e"
  by (auto simp: normalizeNetwork_set)

lemma normalizeNetwork_sorted: "sorted (map net_relativeMs (normalizeNetwork st nd))"
  unfolding normalizeNetwork_def by (rule sorted_sort_key)

lemma net_visible_subseq: "subseq (map n_entry (visibleEntries (NetworkViewer p es t f))) es"
proof -
  have "subseq (visibleEntries (NetworkViewer p es t f)) (net_processedEntries p es)"
    by (simp add: net_visible subseq_filter_left[THEN subseq_order.trans])
  then have "subseq (map n_entry (visibleEntries (NetworkViewer p es t f)))
      (map n_entry (net_processedEntries p es))"
    by (rule subseq_map)
  then show ?thesis by (simp add: net_processed_entries)
qed

lemma con_visible_subseq: "subseq (map c_entry (visibleEntries (ConsoleViewer es t f))) es"
proof -
  have "subseq (visibleEntries (ConsoleViewer es t f)) (con_processedEntries es)"
    by (simp add: con_visible subseq_filter_left[THEN subseq_order.trans])
  then have "subseq (map c_entry (visibleEntries (ConsoleViewer es t f)))
      (map c_entry (con_processedEntries es))"
    by (rule subseq_map)
  then show ?thesis by (simp add: con_processed_entries)
qed

text \<open>
  Claim C8. The loaded console and network lists are sorted ascending by
  \<^verbatim>\<open>relativeMs\<close>, for every start time and all timestamps, negative differences
  included. A console entry's \<^verbatim>\<open>relativeMs\<close> is its timestamp minus the start time; a
  network entry's is computed by \<open>relativeMsOf\<close>, from the wall-clock field (seconds, times
  1000) when it is there. Sorting keeps every entry. The viewers do not reorder: what they
  show is a subsequence of the list they are given.
\<close>

theorem normalized_lists_sorted:
  "sorted (map con_relativeMs (normalizeConsole st logs)) \<and>
   sorted (map net_relativeMs (normalizeNetwork st nd)) \<and>
   (\<forall>e\<in>set (normalizeConsole st logs). con_relativeMs e = con_timestamp e - st) \<and>
   (\<forall>e\<in>set (normalizeNetwork st nd).
      net_relativeMs e = relativeMsOf st e \<and>
      (\<forall>w. net_wallTime e = Some w \<and> w \<noteq> 0 \<longrightarrow> net_relativeMs e = w * 1000 - st)) \<and>
   length (normalizeConsole st (Some cs)) = length cs \<and>
   length (normalizeNetwork st nd) = length (rawNet nd) \<and>
   subseq (map c_entry (visibleEntries (ConsoleViewer cs t g))) cs \<and>
   subseq (map n_entry (visibleEntries (NetworkViewer p es t f))) es"
proof (intro conjI ballI allI impI)
  show "sorted (map con_relativeMs (normalizeConsole st logs))"
    by (rule normalizeConsole_sorted)
  show "sorted (map net_relativeMs (normalizeNetwork st nd))"
    by (rule normalizeNetwork_sorted)
  show "length (normalizeConsole st (Some cs)) = length cs"
    by (simp add: normalizeConsole_def)
  show "length (normalizeNetwork st nd) = length (rawNet nd)"
    by (simp add: normalizeNetwork_def)
  show "subseq (map c_entry (visibleEntries (ConsoleViewer cs t g))) cs"
    by (rule con_visible_subseq)
  show "subseq (map n_entry (visibleEntries (NetworkViewer p es t f))) es"
    by (rule net_visible_subseq)
next
  fix e assume "e \<in> set (normalizeConsole st logs)"
  then show "con_relativeMs e = con_timestamp e - st" by (rule normalizeConsole_rel)
next
  fix e assume e: "e \<in> set (normalizeNetwork st nd)"
  then show r: "net_relativeMs e = relativeMsOf st e" by (rule normalizeNetwork_rel)
  fix w assume "net_wallTime e = Some w \<and> w \<noteq> 0"
  then show "net_relativeMs e = w * 1000 - st"
    using r by (simp add: relativeMsOf_def truthy_num_def)
qed

theorem normalized_lists_sorted_witness:
  "map con_relativeMs (normalizeConsole 1000 (Some [con_at 1500, con_at 400])) = [- 600, 500] \<and>
   map net_relativeMs
     (normalizeNetwork 1000
        (NdArray [(net_at 0)\<lparr>net_wallTime := Some 2\<rparr>, (net_at 7)\<lparr>net_timestamp := Some (1 / 2)\<rparr>,
                  net_at 7])) = [- 500, 0, 1000]"
  using normalized_lists_sorted[of 1000 "Some [con_at 1500, con_at 400]"
      "NdArray [(net_at 0)\<lparr>net_wallTime := Some 2\<rparr>, (net_at 7)\<lparr>net_timestamp := Some (1 / 2)\<rparr>,
                net_at 7]" "[]" 0 "''all''" "\<lambda>u. None" "[]" "''all''"]
  by (simp add: normalizeConsole_def normalizeNetwork_def rawNet_def relativeMsOf_def
      truthy_num_def con_at_def net_at_def)

lemma sorted_split_at:
  assumes "sorted (map f xs)" "xs = pre @ x # post"
  shows "(\<forall>y\<in>set pre. f y \<le> f x) \<and> (\<forall>y\<in>set post. f x \<le> f y)"
  using assms by (auto simp: sorted_append)

text \<open>
  Claim C10. A network entry with neither \<^verbatim>\<open>wallTime\<close> nor \<^verbatim>\<open>timestamp\<close> gets
  \<^verbatim>\<open>relativeMs = 0\<close>. In the sorted list it stands after every entry before the session
  start and before every entry after it, and at every playback time from 0 on it is among
  the visible entries under \<^verbatim>\<open>"all"\<close>.
\<close>

theorem untimed_entry_at_start:
  assumes "net_wallTime e = None" and "net_timestamp e = None" and "e \<in> set (rawNet nd)"
  shows "relativeMsOf st e = 0 \<and>
         e\<lparr>net_relativeMs := 0\<rparr> \<in> set (normalizeNetwork st nd) \<and>
         (\<exists>pre post. normalizeNetwork st nd = pre @ e\<lparr>net_relativeMs := 0\<rparr> # post \<and>
            (\<forall>x\<in>set pre. net_relativeMs x \<le> 0) \<and> (\<forall>x\<in>set post. 0 \<le> net_relativeMs x)) \<and>
         (\<forall>t\<ge>0. e\<lparr>net_relativeMs := 0\<rparr> \<in>
            n_entry ` set (visibleEntries (NetworkViewer p (normalizeNetwork st nd) t ''all'')))"
proof -
  let ?e = "e\<lparr>net_relativeMs := 0\<rparr>"
  let ?L = "normalizeNetwork st nd"
  have zero: "relativeMsOf st e = 0"
    using assms(1,2) by (simp add: relativeMsOf_def truthy_num_def)
  have mem: "?e \<in> set ?L"
    using assms(3) zero by (force simp: normalizeNetwork_set)
  then obtain pre post where split: "?L = pre @ ?e # post"
    by (meson split_list)
  have "(\<forall>x\<in>set pre. net_relativeMs x \<le> net_relativeMs ?e) \<and>
        (\<forall>x\<in>set post. net_relativeMs ?e \<le> net_relativeMs x)"
    by (rule sorted_split_at[OF normalizeNetwork_sorted split])
  then have place: "\<exists>pre post. ?L = pre @ ?e # post \<and>
      (\<forall>x\<in>set pre. net_relativeMs x \<le> 0) \<and> (\<forall>x\<in>set post. 0 \<le> net_relativeMs x)"
    using split by auto
  have vis: "?e \<in> n_entry ` set (visibleEntries (NetworkViewer p ?L t ''all''))" if "0 \<le> t" for t
  proof -
    from mem have "?e \<in> set (map n_entry (net_processedEntries p ?L))"
      by (simp only: net_processed_entries)
    then obtain pe where "pe \<in> set (net_processedEntries p ?L)" "n_entry pe = ?e"
      by auto
    then show ?thesis using that by (force simp: net_visible)
  qed
  show ?thesis using zero mem place vis by blast
qed

theorem untimed_entry_at_start_witness:
  "net_wallTime (net_at 7) = None \<and> net_timestamp (net_at 7) = None \<and>
   net_at 7 \<in> set (rawNet (NdArray [net_at 7])) \<and>
   relativeMsOf 1000 (net_at 7) = 0 \<and>
   map net_relativeMs (normalizeNetwork 1000 (NdArray [net_at 7])) = [0] \<and>
   net_at 0 \<in> n_entry `
     set (visibleEntries (NetworkViewer (\<lambda>u. None) (normalizeNetwork 1000 (NdArray [net_at 7])) 0
            ''all''))"
proof -
  have a: "net_wallTime (net_at 7) = None" and b: "net_timestamp (net_at 7) = None"
    and c: "net_at 7 \<in> set (rawNet (NdArray [net_at 7]))"
    by (simp_all add: net_at_def rawNet_def)
  have d: "(net_at 7)\<lparr>net_relativeMs := 0\<rparr> = net_at 0"
    by (simp add: net_at_def)
  have e: "map net_relativeMs (normalizeNetwork 1000 (NdArray [net_at 7])) = [0]"
    by (simp add: normalizeNetwork_def rawNet_def relativeMsOf_def truthy_num_def net_at_def)
  show ?thesis
    using untimed_entry_at_start[OF a b c, of 1000 "\<lambda>u. None"] a b c d e by simp
qed

text \<open>
  Claim C2. A recording that starts at 1000 with one console entry at 1500 and one network
  entry at wall-clock time 2.2 s: the entries get \<^verbatim>\<open>relativeMs\<close> 500 and 1200. At playback
  time 600 the console entry is visible and nearest, and no network entry is visible or
  nearest. At 1300 both are visible and the network entry is the nearest of its list.
\<close>

theorem end_to_end_scenario:
  fixes m :: RecordingMetadata and c :: ConsoleLogEntry and n :: NetworkLogEntry
    and date_getTime :: "string \<Rightarrow> real" and p :: "string \<Rightarrow> string option"
  defines "s \<equiv> loadRecording date_getTime
      \<lparr>data_metadata = m\<lparr>meta_startTime := Some 1000\<rparr>,
       data_consoleLogs = Some [c\<lparr>con_timestamp := 1500\<rparr>],
       data_networkRequests = NdArray [n\<lparr>net_wallTime := Some (22 / 10)\<rparr>]\<rparr>"
  shows "startTime s = 1000 \<and>
         map con_relativeMs (consoleLogs s) = [500] \<and>
         map net_relativeMs (networkRequests s) = [1200] \<and>
         closestIndex (ConsoleViewer (consoleLogs s) 600 ''all'') = 0 \<and>
         map c_index (visibleEntries (ConsoleViewer (consoleLogs s) 600 ''all'')) = [0] \<and>
         closestIndex (NetworkViewer p (networkRequests s) 600 ''all'') = - 1 \<and>
         visibleEntries (NetworkViewer p (networkRequests s) 600 ''all'') = [] \<and>
         map c_index (visibleEntries (ConsoleViewer (consoleLogs s) 1300 ''all'')) = [0] \<and>
         map n_index (visibleEntries (NetworkViewer p (networkRequests s) 1300 ''all'')) = [0] \<and>
         closestIndex (NetworkViewer p (networkRequests s) 1300 ''all'') = 0"
proof -
  have st: "startTime s = 1000"
    by (simp add: s_def loadRecording_def startTimeOf_def truthy_num_def)
  have cl: "consoleLogs s = [c\<lparr>con_timestamp := 1500, con_relativeMs := 500\<rparr>]"
    by (simp add: s_def loadRecording_def startTimeOf_def truthy_num_def normalizeConsole_def)
  have nl: "networkRequests s = [n\<lparr>net_wallTime := Some (22 / 10), net_relativeMs := 1200\<rparr>]"
    by (simp add: s_def loadRecording_def startTimeOf_def truthy_num_def normalizeNetwork_def
        rawNet_def relativeMsOf_def)
  show ?thesis
    unfolding cl nl
    by (simp add: st NetworkViewer_def ConsoleViewer_def net_processedEntries_def
        con_processedEntries_def timeline_view_def Let_def lt_inf_def ge_inf_def)
qed

theorem end_to_end_scenario_witness:
  "closestIndex
     (ConsoleViewer
        (consoleLogs (loadRecording (\<lambda>u. 0)
           \<lparr>data_metadata = meta_none\<lparr>meta_startTime := Some 1000\<rparr>,
            data_consoleLogs = Some [(con_at 0)\<lparr>con_timestamp := 1500\<rparr>],
            data_networkRequests = NdArray [(net_at 0)\<lparr>net_wallTime := Some (22 / 10)\<rparr>]\<rparr>))
        600 ''all'') = 0 \<and>
   closestIndex
     (NetworkViewer (\<lambda>u. None)
        (networkRequests (loadRecording (\<lambda>u. 0)
           \<lparr>data_metadata = meta_none\<lparr>meta_startTime := Some 1000\<rparr>,
            data_consoleLogs = Some [(con_at 0)\<lparr>con_timestamp := 1500\<rparr>],
            data_networkRequests = NdArray [(net_at 0)\<lparr>net_wallTime := Some (22 / 10)\<rparr>]\<rparr>))
        600 ''all'') = - 1 \<and>
   closestIndex
     (NetworkViewer (\<lambda>u. None)
        (networkRequests (loadRecording (\<lambda>u. 0)
           \<lparr>data_metadata = meta_none\<lparr>meta_startTime := Some 1000\<rparr>,
            data_consoleLogs = Some [(con_at 0)\<lparr>con_timestamp := 1500\<rparr>],
            data_networkRequests = NdArray [(net_at 0)\<lparr>net_wallTime := Some (22 / 10)\<rparr>]\<rparr>))
        1300 ''all'') = 0"
  using end_to_end_scenario[of "\<lambda>u. 0" meta_none "con_at 0" "net_at 0" "\<lambda>u. None"]
  by blast

end
